theory Spec2Isabelle
  imports Complex_Main
begin

section \<open>Print jobs of \<open>octoprint.comm.job\<close>\<close>

text \<open>
  The module defines the class hierarchy
  \<open>Printjob > StoragePrintjob > LocalFilePrintjob > LocalGcodeFilePrintjob > LocalGcodeStreamjob\<close>
  and \<open>StoragePrintjob > SDFilePrintjob\<close>.  The class of an object never changes, so it is a
  parameter of every method of the model (\<open>kind\<close>); the attributes of all classes are the
  fields of one record.  Method resolution follows the Python classes: a method of the model
  takes the kind and selects the body the class of that kind inherits or overrides.
\<close>

subsection \<open>Classes, effects and exceptions\<close>

datatype lkind = LocalFilePrintjob | LocalGcodeFilePrintjob | LocalGcodeStreamjob

datatype kind = Printjob | StoragePrintjob | Local lkind | SDFilePrintjob

text \<open>The callbacks of \<open>PrintjobListener\<close> a job invokes through \<open>notify_listeners\<close>.\<close>

datatype job_event =
    on_job_started | on_job_done | on_job_failed | on_job_cancelled
  | on_job_paused | on_job_resumed | on_job_progress

text \<open>
  Everything a method does to the outside world, in the order it does it: notifications to
  the job's listeners, calls on the protocol object (named by a number), log records, and
  the opening and closing of the file handle.
\<close>

datatype action =
    Notify job_event
  | RegisterListener nat
  | UnregisterListener nat
  | RecordFile nat string
  | StopRecordingFile nat
  | DeleteFile nat string
  | StartFilePrint nat string nat
  | StartStatusTimer
  | LogInfo
  | LogException
  | OpenHandle
  | CloseHandle

text \<open>
  The two exceptions the module can raise on its own: the \<open>raise\<close> at the head of
  \<open>LocalFilePrintjob.get_next\<close>, and the attribute access on \<open>self._protocol\<close> while it
  is \<open>None\<close>.
\<close>

datatype error = HandleNotOpen | NoProtocol

datatype protocol_state = DISCONNECTED | DISCONNECTED_WITH_ERROR | OTHER_STATE

subsection \<open>The attributes of a job and its environment\<close>

text \<open>
  \<open>fsize\<close> is \<open>_size\<close>, \<open>fpos\<close> is \<open>_pos\<close>, \<open>sd_active\<close> is \<open>_active\<close>.  Positions and
  sizes count bytes and are natural numbers.  Readings of \<open>monotonic()\<close> are integers
  (clock ticks); \<open>clock\<close> is the current reading, which no method of the job advances.
  The open handle is the text that is still unread; \<open>content\<close> is the text of the file at
  \<open>_path\<close>.  \<open>listening\<close> is the set of protocols on which the job is registered as a
  listener, \<open>trace\<close> the actions performed so far.
\<close>

record job =
  start :: "int option"
  protocol :: "nat option"
  lost_time :: int
  last_elapsed :: "int option"
  fsize :: "nat option"
  fpos :: nat
  read_lines :: nat
  actual_lines :: nat
  cancel_pos :: "nat option"
  handle :: "string option"
  remote :: string
  filename :: string
  sd_active :: bool
  last_pos :: "nat option"
  clock :: int
  content :: string
  listening :: "nat set"
  trace :: "action list"

type_synonym 'a result = "(error + 'a) \<times> job"

definition emit :: "action \<Rightarrow> job \<Rightarrow> job" where
  "emit a s = s\<lparr>trace := trace s @ [a]\<rparr>"

definition notify_listeners :: "job_event \<Rightarrow> job \<Rightarrow> job" where
  "notify_listeners e s = emit (Notify e) s"

text \<open>
  Modelled from the spec: \<open>register_listener\<close> and \<open>unregister_listener\<close> of the protocol
  (class \<open>ListenerAware\<close>, not part of this module) keep a set of listeners.
\<close>

definition register_listener :: "nat \<Rightarrow> job \<Rightarrow> job" where
  "register_listener p s = emit (RegisterListener p) (s\<lparr>listening := insert p (listening s)\<rparr>)"

definition unregister_listener :: "nat \<Rightarrow> job \<Rightarrow> job" where
  "unregister_listener p s = emit (UnregisterListener p) (s\<lparr>listening := listening s - {p}\<rparr>)"

subsection \<open>Properties\<close>

fun job_size :: "kind \<Rightarrow> job \<Rightarrow> nat option" where
  "job_size (Local k) s = fsize s"
| "job_size SDFilePrintjob s = fsize s"
| "job_size k s = None"

fun job_pos :: "kind \<Rightarrow> job \<Rightarrow> nat option" where
  "job_pos (Local k) s = Some (fpos s)"
| "job_pos SDFilePrintjob s = last_pos s"
| "job_pos k s = None"

definition elapsed :: "job \<Rightarrow> int option" where
  "elapsed s = (case start s of None \<Rightarrow> None | Some t \<Rightarrow> Some (clock s - t))"

definition last_elapsed_prop :: "job \<Rightarrow> int option" where
  "last_elapsed_prop s = (case elapsed s of None \<Rightarrow> last_elapsed s | Some e \<Rightarrow> Some e)"

definition clean_elapsed :: "job \<Rightarrow> int option" where
  "clean_elapsed s = (case elapsed s of None \<Rightarrow> None | Some e \<Rightarrow> Some (e - lost_time s))"

text \<open>\<open>float(pos) / float(size)\<close> is the exact quotient in the model.\<close>

definition progress :: "kind \<Rightarrow> job \<Rightarrow> real option" where
  "progress k s =
     (case job_pos k s of
        None \<Rightarrow> None
      | Some p \<Rightarrow>
          (case job_size k s of
             None \<Rightarrow> None
           | Some z \<Rightarrow> if z = 0 then None else Some (real p / real z)))"

fun active :: "kind \<Rightarrow> job \<Rightarrow> bool" where
  "active (Local k) s = (start s \<noteq> None \<and> handle s \<noteq> None)"
| "active SDFilePrintjob s = (start s \<noteq> None \<and> sd_active s)"
| "active k s = (start s \<noteq> None)"

definition add_to_lost_time :: "int \<Rightarrow> job \<Rightarrow> job" where
  "add_to_lost_time v s = s\<lparr>lost_time := lost_time s + v\<rparr>"

subsection \<open>Statistics and reset\<close>

text \<open>\<open>if elapsed:\<close> holds for a reading that is neither \<open>None\<close> nor zero.\<close>

definition truthy :: "int option \<Rightarrow> bool" where
  "truthy e = (case e of None \<Rightarrow> False | Some v \<Rightarrow> v \<noteq> 0)"

fun report_stats :: "kind \<Rightarrow> job \<Rightarrow> job" where
  "report_stats (Local k) s =
     (if truthy (elapsed s) \<and> read_lines s \<noteq> 0 then emit LogInfo s else s)"
| "report_stats k s = (if truthy (elapsed s) then emit LogInfo s else s)"

definition close :: "job \<Rightarrow> job" where
  "close s = (case handle s of None \<Rightarrow> s | Some h \<Rightarrow> (emit CloseHandle s)\<lparr>handle := None\<rparr>)"

definition Printjob_reset_job :: "job \<Rightarrow> job" where
  "Printjob_reset_job s =
     (case start s of
        None \<Rightarrow> s\<lparr>start := None\<rparr>
      | Some t \<Rightarrow> s\<lparr>last_elapsed := elapsed s, start := None\<rparr>)"

fun reset_job :: "kind \<Rightarrow> job \<Rightarrow> job" where
  "reset_job (Local k) s = (close (Printjob_reset_job s))\<lparr>fpos := 0, read_lines := 0\<rparr>"
| "reset_job SDFilePrintjob s = s\<lparr>sd_active := False, last_pos := None, fsize := None\<rparr>"
| "reset_job k s = Printjob_reset_job s"

subsection \<open>Lifecycle notifications\<close>

definition process_job_started :: "job \<Rightarrow> job" where
  "process_job_started s = notify_listeners on_job_started s"

definition process_job_paused :: "job \<Rightarrow> job" where
  "process_job_paused s = notify_listeners on_job_paused s"

definition process_job_resumed :: "job \<Rightarrow> job" where
  "process_job_resumed s = notify_listeners on_job_resumed s"

definition process_job_progress :: "job \<Rightarrow> job" where
  "process_job_progress s = notify_listeners on_job_progress s"

definition Printjob_process_job_done :: "kind \<Rightarrow> job \<Rightarrow> job" where
  "Printjob_process_job_done k s = reset_job k (report_stats k (notify_listeners on_job_done s))"

definition Printjob_process_job_failed :: "kind \<Rightarrow> job \<Rightarrow> job" where
  "Printjob_process_job_failed k s = reset_job k (report_stats k (notify_listeners on_job_failed s))"

definition Printjob_process_job_cancelled :: "kind \<Rightarrow> job \<Rightarrow> job" where
  "Printjob_process_job_cancelled k s =
     reset_job k (report_stats k (notify_listeners on_job_cancelled s))"

text \<open>
  \<open>LocalGcodeStreamjob\<close> overrides the three terminal handlers: it calls the protocol
  first, which raises when \<open>_protocol\<close> is \<open>None\<close>.
\<close>

fun process_job_done :: "kind \<Rightarrow> job \<Rightarrow> unit result" where
  "process_job_done (Local LocalGcodeStreamjob) s =
     (case protocol s of
        None \<Rightarrow> (Inl NoProtocol, s)
      | Some p \<Rightarrow>
          (Inr (), Printjob_process_job_done (Local LocalGcodeStreamjob)
                     (emit (StopRecordingFile p) s)))"
| "process_job_done k s = (Inr (), Printjob_process_job_done k s)"

fun process_job_failed :: "kind \<Rightarrow> job \<Rightarrow> unit result" where
  "process_job_failed (Local LocalGcodeStreamjob) s =
     (case protocol s of
        None \<Rightarrow> (Inl NoProtocol, s)
      | Some p \<Rightarrow>
          (Inr (), Printjob_process_job_failed (Local LocalGcodeStreamjob)
                     (emit (StopRecordingFile p) s)))"
| "process_job_failed k s = (Inr (), Printjob_process_job_failed k s)"

fun process_job_cancelled :: "kind \<Rightarrow> job \<Rightarrow> unit result" where
  "process_job_cancelled (Local LocalGcodeStreamjob) s =
     (case protocol s of
        None \<Rightarrow> (Inl NoProtocol, s)
      | Some p \<Rightarrow>
          (Inr (), Printjob_process_job_cancelled (Local LocalGcodeStreamjob)
                     (emit (DeleteFile p (remote s)) (emit (StopRecordingFile p) s))))"
| "process_job_cancelled k s = (Inr (), Printjob_process_job_cancelled k s)"

definition pause :: "job \<Rightarrow> job" where
  "pause s = process_job_paused s"

definition resume :: "job \<Rightarrow> job" where
  "resume s = process_job_resumed s"

subsection \<open>\<open>process\<close> and \<open>cancel\<close>\<close>

definition Printjob_process :: "nat \<Rightarrow> job \<Rightarrow> job" where
  "Printjob_process p s = register_listener p (s\<lparr>start := Some (clock s), protocol := Some p\<rparr>)"

text \<open>
  \<open>bom_aware_open\<close> yields a handle at the beginning of the file; \<open>seek(position)\<close> skips
  \<open>position\<close> characters.  The \<open>tags\<close> argument of \<open>process\<close> is only handed on to
  \<open>start_file_print\<close> and is left out.
\<close>

definition LocalFilePrintjob_process :: "nat \<Rightarrow> nat \<Rightarrow> job \<Rightarrow> job" where
  "LocalFilePrintjob_process p position s =
     (let s1 = Printjob_process p s;
          s2 = (emit OpenHandle s1)\<lparr>handle := Some (content s1)\<rparr>;
          s3 = (if position > 0
                then s2\<lparr>handle := Some (drop position (content s2)), fpos := position\<rparr>
                else s2)
      in process_job_started s3)"

definition SDFilePrintjob_process :: "nat \<Rightarrow> nat \<Rightarrow> job \<Rightarrow> job" where
  "SDFilePrintjob_process p position s =
     (let s1 = Printjob_process p s;
          s2 = register_listener p s1;
          s3 = emit (StartFilePrint p (filename s2) position) s2;
          s4 = s3\<lparr>sd_active := True, last_pos := Some position\<rparr>
      in emit StartStatusTimer s4)"

fun process :: "kind \<Rightarrow> nat \<Rightarrow> nat \<Rightarrow> job \<Rightarrow> unit result" where
  "process (Local LocalGcodeStreamjob) p position s =
     (let s1 = LocalFilePrintjob_process p position s
      in case protocol s1 of
           None \<Rightarrow> (Inl NoProtocol, s1)
         | Some q \<Rightarrow> (Inr (), emit (RecordFile q (remote s1)) s1))"
| "process (Local k) p position s = (Inr (), LocalFilePrintjob_process p position s)"
| "process SDFilePrintjob p position s = (Inr (), SDFilePrintjob_process p position s)"
| "process k p position s = (Inr (), Printjob_process p s)"

definition Printjob_cancel :: "kind \<Rightarrow> bool \<Rightarrow> job \<Rightarrow> unit result" where
  "Printjob_cancel k err s =
     (case (if err then process_job_failed k s else process_job_cancelled k s) of
        (Inl e, s1) \<Rightarrow> (Inl e, s1)
      | (Inr u, s1) \<Rightarrow>
          (case protocol s1 of
             None \<Rightarrow> (Inl NoProtocol, s1)
           | Some p \<Rightarrow> (Inr (), (unregister_listener p s1)\<lparr>protocol := None\<rparr>)))"

fun cancel :: "kind \<Rightarrow> bool \<Rightarrow> job \<Rightarrow> unit result" where
  "cancel (Local k) err s = Printjob_cancel (Local k) err (s\<lparr>cancel_pos := Some (fpos s)\<rparr>)"
| "cancel k err s = Printjob_cancel k err s"

definition on_protocol_state :: "kind \<Rightarrow> protocol_state \<Rightarrow> job \<Rightarrow> unit result" where
  "on_protocol_state k new_state s =
     (if (new_state = DISCONNECTED \<or> new_state = DISCONNECTED_WITH_ERROR) \<and> active k s
      then cancel k True s
      else (Inr (), s))"

subsection \<open>The callbacks of the device-resident job\<close>

definition on_protocol_file_status :: "nat \<Rightarrow> nat \<Rightarrow> job \<Rightarrow> job" where
  "on_protocol_file_status ps tot s =
     process_job_progress (s\<lparr>last_pos := Some ps, fsize := Some tot\<rparr>)"

definition on_protocol_file_print_started :: "string \<Rightarrow> nat \<Rightarrow> job \<Rightarrow> job" where
  "on_protocol_file_print_started name sz s = process_job_started (s\<lparr>fsize := Some sz\<rparr>)"

definition on_protocol_file_print_done :: "job \<Rightarrow> unit result" where
  "on_protocol_file_print_done s = process_job_done SDFilePrintjob s"

subsection \<open>Reading lines\<close>

text \<open>
  Modelled from the spec: the handle comes from \<open>bom_aware_open\<close> of \<open>octoprint.util\<close>
  (not part of this module); its \<open>readline\<close> reads one line, up to and including the next
  line feed, and returns the empty text at the end of the file.  Reading does not fail.
\<close>

fun readline :: "string \<Rightarrow> string" where
  "readline [] = []"
| "readline (c # cs) = (if c = CHR 0x0A then [c] else c # readline cs)"

definition whitespace :: "char \<Rightarrow> bool" where
  "whitespace c =
     (c = CHR '' '' \<or> c = CHR 0x09 \<or> c = CHR 0x0A \<or> c = CHR 0x0B \<or> c = CHR 0x0C \<or> c = CHR 0x0D)"

definition strip :: "string \<Rightarrow> string" where
  "strip l = rev (dropWhile whitespace (rev (dropWhile whitespace l)))"

text \<open>
  Modelled from the spec: \<open>strip_comment\<close> of \<open>octoprint.comm.protocol.reprap.util\<close> (not
  part of this module) strips a trailing or embedded comment according to the command
  syntax; a comment of the command syntax starts at a semicolon.
\<close>

definition strip_comment :: "string \<Rightarrow> string" where
  "strip_comment l = strip (takeWhile (\<lambda>c. c \<noteq> CHR '';'') l)"

fun process_line :: "lkind \<Rightarrow> string \<Rightarrow> string option" where
  "process_line LocalFilePrintjob line = Some line"
| "process_line k line =
     (let processed = strip_comment (strip line)
      in if length processed = 0 then None else Some processed)"

subsection \<open>\<open>get_next\<close>\<close>

text \<open>
  The \<open>while processed is None\<close> loop of \<open>LocalFilePrintjob.get_next\<close>, with the
  statements that follow the loop in the branch that leaves it.  An exception leaves the
  loop with the state reached so far.
\<close>

function get_next_loop :: "lkind \<Rightarrow> job \<Rightarrow> string option result" where
  "get_next_loop k s =
     (case handle s of
        None \<Rightarrow>
          (case process_job_done (Local k) s of
             (Inl e, s1) \<Rightarrow> (Inl e, s1)
           | (Inr u, s1) \<Rightarrow> (Inr None, s1))
      | Some h \<Rightarrow>
          (case (if readline h = []
                 then process_job_done (Local k)
                        (s\<lparr>handle := Some (drop (length (readline h)) h),
                           fpos := fpos s + length (readline h),
                           actual_lines := actual_lines s + 1\<rparr>)
                 else (Inr (),
                        s\<lparr>handle := Some (drop (length (readline h)) h),
                          fpos := fpos s + length (readline h),
                          actual_lines := actual_lines s + 1\<rparr>)) of
             (Inl e, s2) \<Rightarrow> (Inl e, s2)
           | (Inr u, s2) \<Rightarrow>
               (case process_line k (readline h) of
                  None \<Rightarrow> get_next_loop k s2
                | Some processed \<Rightarrow>
                    (Inr (Some processed),
                     process_job_progress (s2\<lparr>read_lines := read_lines s2 + 1\<rparr>)))))"
  by pat_completeness auto

definition unread :: "job \<Rightarrow> nat" where
  "unread s = (case handle s of None \<Rightarrow> 0 | Some h \<Rightarrow> Suc (length h))"

lemma readline_Nil_iff: "(readline h = []) = (h = [])"
  by (cases h) auto

lemma handle_process_job_done:
  "process_job_done (Local k) s = (Inr u, s1) \<Longrightarrow> handle s1 = None"
  by (cases k) (auto simp: Printjob_process_job_done_def close_def split: option.splits)

termination get_next_loop
proof (relation "measure (\<lambda>(k, s). unread s)", goal_cases)
  case 1
  show ?case by simp
next
  case (2 k s h x u s2)
  then show ?case
    by (auto simp: unread_def readline_Nil_iff dest: handle_process_job_done [OF sym]
             split: if_splits option.splits)
qed

text \<open>
  \<open>LocalFilePrintjob.get_next\<close>: the guard on the handle, the loop inside \<open>try\<close>, and the
  handler, which cancels with \<open>error=True\<close>, logs and re-raises; an exception raised by
  \<open>cancel\<close> inside the handler replaces the first one.
\<close>

definition LocalFilePrintjob_get_next :: "lkind \<Rightarrow> job \<Rightarrow> string option result" where
  "LocalFilePrintjob_get_next k s =
     (case handle s of
        None \<Rightarrow> (Inl HandleNotOpen, s)
      | Some h \<Rightarrow>
          (case get_next_loop k s of
             (Inr r, s1) \<Rightarrow> (Inr r, s1)
           | (Inl e, s1) \<Rightarrow>
               (case cancel (Local k) True s1 of
                  (Inl e2, s2) \<Rightarrow> (Inl e2, s2)
                | (Inr u, s2) \<Rightarrow> (Inl e, emit LogException s2))))"

fun get_next :: "kind \<Rightarrow> job \<Rightarrow> string option result" where
  "get_next (Local k) s = LocalFilePrintjob_get_next k s"
| "get_next k s = (Inr None, s)"

subsection \<open>Construction\<close>

text \<open>
  The state \<open>__init__\<close> leaves: of a local-file job over a file with text \<open>c\<close> (and remote
  name \<open>r\<close> for a stream job), of a device-resident job for the file \<open>r\<close>, of a plain
  job; \<open>t\<close> is the clock.  The file of a local-file job exists, so that \<open>__init__\<close> does
  not raise.
\<close>

definition init :: "kind \<Rightarrow> string \<Rightarrow> string \<Rightarrow> int \<Rightarrow> job" where
  "init k c r t =
     \<lparr>start = None, protocol = None, lost_time = 0, last_elapsed = None,
      fsize = (case k of Local l \<Rightarrow> Some (length c) | _ \<Rightarrow> None),
      fpos = 0, read_lines = 0, actual_lines = 0, cancel_pos = None, handle = None,
      remote = r, filename = r, sd_active = False, last_pos = None,
      clock = t, content = c, listening = {}, trace = []\<rparr>"

text \<open>The passing of time between two calls on the job.\<close>

definition tick :: "int \<Rightarrow> job \<Rightarrow> job" where
  "tick d s = s\<lparr>clock := clock s + d\<rparr>"

text \<open>The notifications in a trace.\<close>

fun events :: "action list \<Rightarrow> job_event list" where
  "events [] = []"
| "events (Notify e # as) = e # events as"
| "events (a # as) = events as"

section \<open>Properties of the jobs\<close>

lemmas job_defs =
  init_def tick_def LocalFilePrintjob_get_next_def LocalFilePrintjob_process_def
  SDFilePrintjob_process_def Printjob_process_def register_listener_def
  unregister_listener_def emit_def process_job_started_def notify_listeners_def
  process_job_progress_def strip_def strip_comment_def whitespace_def
  Printjob_process_job_done_def Printjob_process_job_failed_def
  Printjob_process_job_cancelled_def Printjob_reset_job_def close_def elapsed_def
  truthy_def Printjob_cancel_def on_protocol_file_status_def
  on_protocol_file_print_started_def on_protocol_file_print_done_def progress_def

lemma events_append: "events (xs @ ys) = events xs @ events ys"
  by (induction xs rule: events.induct) simp_all

subsection \<open>The three-line scenario\<close>

definition gcode_file :: string where
  "gcode_file = ''G1 X1\<newline>; comment\<newline>G1 Y1\<newline>''"

definition gcode_job :: job where
  "gcode_job =
     snd (process (Local LocalGcodeFilePrintjob) 0 0
            (init (Local LocalGcodeFilePrintjob) gcode_file [] 0))"

definition gcode_call1 :: "string option result" where
  "gcode_call1 = get_next (Local LocalGcodeFilePrintjob) gcode_job"

definition gcode_call2 :: "string option result" where
  "gcode_call2 = get_next (Local LocalGcodeFilePrintjob) (snd gcode_call1)"

definition gcode_call3 :: "string option result" where
  "gcode_call3 = get_next (Local LocalGcodeFilePrintjob) (snd gcode_call2)"

definition gcode_call4 :: "string option result" where
  "gcode_call4 = get_next (Local LocalGcodeFilePrintjob) (snd gcode_call3)"

text \<open>
  Claim C1.  The line-filtering job over the file \<open>G1 X1\<close>, \<open>; comment\<close>, \<open>G1 Y1\<close> returns
  \<open>G1 X1\<close> and \<open>G1 Y1\<close> from the first two calls of \<open>get_next\<close>, after which
  \<open>actual_lines\<close> is 3 and \<open>read_lines\<close> is 2, and \<open>None\<close> from the third.  The third call
  emits \<open>on_job_done\<close> twice, not once: once where the empty line is read and once more in
  the branch for the handle that was just closed; it leaves \<open>actual_lines\<close> at 4 and
  \<open>read_lines\<close> at 0.  A fourth call raises.
\<close>

theorem gcode_scenario_emits_job_done_twice:
  "fst gcode_call1 = Inr (Some ''G1 X1'')
   \<and> fst gcode_call2 = Inr (Some ''G1 Y1'')
   \<and> actual_lines (snd gcode_call2) = 3 \<and> read_lines (snd gcode_call2) = 2
   \<and> events (trace (snd gcode_call2)) = [on_job_started, on_job_progress, on_job_progress]
   \<and> fst gcode_call3 = Inr None
   \<and> events (trace (snd gcode_call3)) =
       [on_job_started, on_job_progress, on_job_progress, on_job_done, on_job_done]
   \<and> actual_lines (snd gcode_call3) = 4 \<and> read_lines (snd gcode_call3) = 0
   \<and> gcode_call4 = (Inl HandleNotOpen, snd gcode_call3)"
  by (simp add: gcode_call4_def gcode_call3_def gcode_call2_def gcode_call1_def
        gcode_job_def gcode_file_def job_defs)

subsection \<open>Terminal notifications at the end of the content\<close>

definition one_line_job :: job where
  "one_line_job =
     snd (process (Local LocalGcodeFilePrintjob) 0 0
            (init (Local LocalGcodeFilePrintjob) ''G1 X1\<newline>'' [] 0))"

definition one_line_call1 :: "string option result" where
  "one_line_call1 = get_next (Local LocalGcodeFilePrintjob) one_line_job"

definition one_line_call2 :: "string option result" where
  "one_line_call2 = get_next (Local LocalGcodeFilePrintjob) (snd one_line_call1)"

text \<open>
  Claim C2.  At most one terminal notification is emitted per active period; a sequence
  of \<open>get_next\<close> calls that reaches the end of the content never emits \<open>on_job_done\<close>
  twice.  The code does emit it twice: over a one-line file the second call of \<open>get_next\<close>
  reads the empty line, returns \<open>None\<close> and leaves two \<open>on_job_done\<close> in the trace.
\<close>

theorem one_line_job_done_twice:
  "fst one_line_call1 = Inr (Some ''G1 X1'')
   \<and> fst one_line_call2 = Inr None
   \<and> events (trace (snd one_line_call2)) =
       [on_job_started, on_job_progress, on_job_done, on_job_done]"
  by (simp add: one_line_call2_def one_line_call1_def one_line_job_def job_defs)

subsection \<open>\<open>get_next\<close> on a closed handle\<close>


subsection \<open>\<open>process\<close> on an active job\<close>

definition active_job :: job where
  "active_job = tick 5 (snd (process Printjob 1 0 (init Printjob [] [] 10)))"

text \<open>
  Claim C4, as stated: \<open>process\<close> on a job that is already active fails and never
  overwrites \<open>start_time\<close> or rebinds the transport.  It succeeds and does both: a job
  started at time 10 on protocol 1 and processed again at time 15 on protocol 2 starts at
  15 on protocol 2.
\<close>

theorem process_active_job_restarts:
  "start active_job = Some 10 \<and> protocol active_job = Some 1 \<and> active Printjob active_job
   \<and> fst (process Printjob 2 0 active_job) = Inr ()
   \<and> start (snd (process Printjob 2 0 active_job)) = Some 15
   \<and> protocol (snd (process Printjob 2 0 active_job)) = Some 2"
  by (simp add: active_job_def job_defs)

text \<open>
  Claim C4, amended: \<open>process\<close> has no precondition.  On every job of every kind, active
  or not, it succeeds, sets \<open>start_time\<close> to the current time, binds the given transport
  and registers the job on it.
\<close>

theorem process_always_starts:
  "fst (process k p position s) = Inr ()
   \<and> start (snd (process k p position s)) = Some (clock s)
   \<and> protocol (snd (process k p position s)) = Some p
   \<and> p \<in> listening (snd (process k p position s))"
proof (cases k)
  case (Local l)
  then show ?thesis by (cases l) (simp_all add: job_defs Let_def)
qed (simp_all add: job_defs Let_def)

subsection \<open>\<open>start_time\<close> of a device-resident job\<close>

definition sd_job :: job where
  "sd_job = tick 5 (snd (process SDFilePrintjob 1 0 (init SDFilePrintjob [] ''x.gco'' 100)))"

text \<open>
  Claim C5.  \<open>start_time\<close> is set exactly while the job is driven, and \<open>elapsed\<close> is
  \<open>None\<close> when it is not; after the terminal transition of a device-resident job
  \<open>start_time\<close> is cleared.  \<open>SDFilePrintjob.reset_job\<close> does not call the inherited
  \<open>reset_job\<close>: after \<open>on_protocol_file_print_done\<close> the job is not active, yet
  \<open>start_time\<close> is still set and \<open>elapsed\<close> still has a value.
\<close>

theorem sd_job_done_keeps_start:
  "active SDFilePrintjob sd_job
   \<and> fst (on_protocol_file_print_done sd_job) = Inr ()
   \<and> events (trace (snd (on_protocol_file_print_done sd_job))) = [on_job_done]
   \<and> \<not> active SDFilePrintjob (snd (on_protocol_file_print_done sd_job))
   \<and> start (snd (on_protocol_file_print_done sd_job)) = Some 100
   \<and> elapsed (snd (on_protocol_file_print_done sd_job)) = Some 5"
  by (simp add: sd_job_def job_defs)

subsection \<open>What the handlers keep and change\<close>

lemma emit_fields [simp]:
  "protocol (emit a s) = protocol s" "listening (emit a s) = listening s"
  "start (emit a s) = start s" "handle (emit a s) = handle s"
  "read_lines (emit a s) = read_lines s" "actual_lines (emit a s) = actual_lines s"
  "fpos (emit a s) = fpos s" "clock (emit a s) = clock s" "content (emit a s) = content s"
  "remote (emit a s) = remote s" "trace (emit a s) = trace s @ [a]"
  by (simp_all add: emit_def)

lemma report_stats_fields [simp]:
  "protocol (report_stats k s) = protocol s" "listening (report_stats k s) = listening s"
  "start (report_stats k s) = start s" "handle (report_stats k s) = handle s"
  "read_lines (report_stats k s) = read_lines s"
  "actual_lines (report_stats k s) = actual_lines s"
  "fpos (report_stats k s) = fpos s" "clock (report_stats k s) = clock s"
  "content (report_stats k s) = content s" "remote (report_stats k s) = remote s"
  by (cases k; simp)+

lemma events_report_stats [simp]: "events (trace (report_stats k s)) = events (trace s)"
  by (cases k) (simp_all add: events_append)

lemma reset_job_fields [simp]:
  "protocol (reset_job k s) = protocol s" "listening (reset_job k s) = listening s"
  "actual_lines (reset_job k s) = actual_lines s" "content (reset_job k s) = content s"
  "clock (reset_job k s) = clock s" "remote (reset_job k s) = remote s"
  by (cases k; simp add: Printjob_reset_job_def close_def split: option.splits)+

lemma events_reset_job [simp]: "events (trace (reset_job k s)) = events (trace s)"
  by (cases k) (simp_all add: Printjob_reset_job_def close_def events_append split: option.splits)

lemma reset_job_local [simp]:
  "handle (reset_job (Local l) s) = None" "read_lines (reset_job (Local l) s) = 0"
  "fpos (reset_job (Local l) s) = 0" "start (reset_job (Local l) s) = None"
  by (simp_all add: Printjob_reset_job_def close_def split: option.splits)

lemma trace_reset_job_local:
  "trace (reset_job (Local l) s) = trace s @ (if handle s = None then [] else [CloseHandle])"
  by (simp add: Printjob_reset_job_def close_def split: option.splits)

lemma trace_report_stats_local:
  "trace (report_stats (Local l) s) =
     trace s @ (if truthy (elapsed s) \<and> read_lines s \<noteq> 0 then [LogInfo] else [])"
  by simp

lemma elapsed_emit [simp]: "elapsed (emit a s) = elapsed s"
  by (simp add: elapsed_def split: option.splits)

lemma elapsed_cancel_pos [simp]: "elapsed (s\<lparr>cancel_pos := c\<rparr>) = elapsed s"
  by (simp add: elapsed_def split: option.splits)

lemma process_job_done_bound:
  "protocol s = Some p \<Longrightarrow>
   fst (process_job_done k s) = Inr () \<and> protocol (snd (process_job_done k s)) = Some p
   \<and> listening (snd (process_job_done k s)) = listening s"
  by (cases "(k, s)" rule: process_job_done.cases)
     (simp_all add: Printjob_process_job_done_def notify_listeners_def
        del: report_stats.simps reset_job.simps)

lemma process_job_failed_bound:
  "protocol s = Some p \<Longrightarrow>
   fst (process_job_failed k s) = Inr () \<and> protocol (snd (process_job_failed k s)) = Some p
   \<and> listening (snd (process_job_failed k s)) = listening s"
  by (cases "(k, s)" rule: process_job_failed.cases)
     (simp_all add: Printjob_process_job_failed_def notify_listeners_def
        del: report_stats.simps reset_job.simps)

lemma process_job_cancelled_bound:
  "protocol s = Some p \<Longrightarrow>
   fst (process_job_cancelled k s) = Inr ()
   \<and> protocol (snd (process_job_cancelled k s)) = Some p
   \<and> listening (snd (process_job_cancelled k s)) = listening s"
  by (cases "(k, s)" rule: process_job_cancelled.cases)
     (simp_all add: Printjob_process_job_cancelled_def notify_listeners_def
        del: report_stats.simps reset_job.simps)

lemma Printjob_cancel_bound:
  assumes "protocol s = Some p"
  shows "fst (Printjob_cancel k err s) = Inr ()
         \<and> protocol (snd (Printjob_cancel k err s)) = None
         \<and> p \<notin> listening (snd (Printjob_cancel k err s))"
proof (cases err)
  case True
  obtain s1 where f: "process_job_failed k s = (Inr (), s1)" and p1: "protocol s1 = Some p"
    using process_job_failed_bound [OF assms, of k]
    by (cases "process_job_failed k s") auto
  show ?thesis using True f p1
    by (simp add: Printjob_cancel_def unregister_listener_def)
next
  case False
  obtain s1 where f: "process_job_cancelled k s = (Inr (), s1)" and p1: "protocol s1 = Some p"
    using process_job_cancelled_bound [OF assms, of k]
    by (cases "process_job_cancelled k s") auto
  show ?thesis using False f p1
    by (simp add: Printjob_cancel_def unregister_listener_def)
qed

lemma cancel_bound:
  assumes "protocol s = Some p"
  shows "fst (cancel k err s) = Inr () \<and> protocol (snd (cancel k err s)) = None
         \<and> p \<notin> listening (snd (cancel k err s))"
proof (cases k)
  case (Local l)
  have "protocol (s\<lparr>cancel_pos := Some (fpos s)\<rparr>) = Some p" using assms by simp
  from Printjob_cancel_bound [OF this] show ?thesis using Local by simp
qed (use Printjob_cancel_bound [OF assms] in simp_all)

subsection \<open>The transport reference\<close>

definition done_job :: job where
  "done_job = snd (process_job_done Printjob active_job)"

text \<open>
  Claim C6, as stated: after any terminal transition (done, failed or cancelled) the job
  holds no transport reference and is no longer registered on the transport.  After the
  done transition of a plain job that was processed on protocol 1 the job is reset and no
  longer active, but it still holds protocol 1 and is still registered on it.
\<close>

theorem done_keeps_transport:
  "events (trace done_job) = [on_job_done] \<and> start done_job = None
   \<and> \<not> active Printjob done_job
   \<and> protocol done_job = Some 1 \<and> 1 \<in> listening done_job"
  by (simp add: done_job_def active_job_def job_defs)

text \<open>
  Claim C6, amended: the transport reference is set by \<open>process\<close> and cleared by
  \<open>cancel\<close> only.  \<open>cancel\<close> on a job of any kind with a transport bound succeeds and
  leaves the job without transport reference and not registered on that transport; the
  done transition (\<open>process_job_done\<close> with its \<open>reset_job\<close>) leaves the reference and
  the registration as they were.
\<close>

theorem cancel_unbinds_done_does_not:
  assumes "protocol s = Some p"
  shows "fst (cancel k err s) = Inr ()
         \<and> protocol (snd (cancel k err s)) = None
         \<and> p \<notin> listening (snd (cancel k err s))
         \<and> fst (process_job_done k s) = Inr ()
         \<and> protocol (snd (process_job_done k s)) = Some p
         \<and> listening (snd (process_job_done k s)) = listening s"
  using cancel_bound [OF assms, of k err] process_job_done_bound [OF assms, of k] by simp

theorem cancel_unbinds_done_does_not_witness:
  "protocol active_job = Some 1
   \<and> fst (cancel Printjob True active_job) = Inr ()
   \<and> protocol (snd (cancel Printjob True active_job)) = None
   \<and> 1 \<notin> listening (snd (cancel Printjob True active_job))
   \<and> fst (process_job_done Printjob active_job) = Inr ()
   \<and> protocol (snd (process_job_done Printjob active_job)) = Some 1
   \<and> listening (snd (process_job_done Printjob active_job)) = listening active_job"
proof -
  have h: "protocol active_job = Some 1" by (simp add: active_job_def job_defs)
  show ?thesis using h cancel_unbinds_done_does_not [OF h, of Printjob True] by simp
qed

subsection \<open>Progress\<close>

text \<open>
  Claim C8.  \<open>progress\<close> is \<open>pos / size\<close> exactly when both are defined and \<open>size > 0\<close>,
  and \<open>None\<close> otherwise.  A device-resident job that receives file-print-started with
  size 1000, then the status callbacks (200, 1000) and (1000, 1000), then file-print-done,
  shows progress 0.2 and 1.0 at the two status points and emits started, progress,
  progress, done, in this order.  (The quotient of the two floats is the exact quotient
  here.)
\<close>

theorem progress_and_sd_scenario:
  "((progress k s = Some q) =
      (\<exists>p z. job_pos k s = Some p \<and> job_size k s = Some z \<and> 0 < z \<and> q = real p / real z))
   \<and> ((progress k s = None) =
      (job_pos k s = None \<or> job_size k s = None \<or> job_size k s = Some 0))
   \<and> progress SDFilePrintjob
       (on_protocol_file_status 200 1000 (on_protocol_file_print_started ''x'' 1000 s)) = Some 0.2
   \<and> progress SDFilePrintjob
       (on_protocol_file_status 1000 1000
          (on_protocol_file_status 200 1000 (on_protocol_file_print_started ''x'' 1000 s))) = Some 1.0
   \<and> fst (on_protocol_file_print_done
           (on_protocol_file_status 1000 1000
              (on_protocol_file_status 200 1000 (on_protocol_file_print_started ''x'' 1000 s)))) = Inr ()
   \<and> events (trace (snd (on_protocol_file_print_done
           (on_protocol_file_status 1000 1000
              (on_protocol_file_status 200 1000 (on_protocol_file_print_started ''x'' 1000 s))))))
      = events (trace s) @ [on_job_started, on_job_progress, on_job_progress, on_job_done]"
proof -
  have a: "(progress k s = Some q) =
      (\<exists>p z. job_pos k s = Some p \<and> job_size k s = Some z \<and> 0 < z \<and> q = real p / real z)"
    by (auto simp: progress_def split: option.splits)
  have b: "(progress k s = None) =
      (job_pos k s = None \<or> job_size k s = None \<or> job_size k s = Some 0)"
    by (auto simp: progress_def split: option.splits)
  have c: "progress SDFilePrintjob
       (on_protocol_file_status 200 1000 (on_protocol_file_print_started ''x'' 1000 s)) = Some 0.2"
    by (simp add: progress_def on_protocol_file_status_def process_job_progress_def
          notify_listeners_def emit_def)
  have d: "progress SDFilePrintjob
       (on_protocol_file_status 1000 1000
          (on_protocol_file_status 200 1000 (on_protocol_file_print_started ''x'' 1000 s))) = Some 1.0"
    by (simp add: progress_def on_protocol_file_status_def process_job_progress_def
          notify_listeners_def emit_def)
  have e: "fst (on_protocol_file_print_done
           (on_protocol_file_status 1000 1000
              (on_protocol_file_status 200 1000 (on_protocol_file_print_started ''x'' 1000 s)))) = Inr ()"
    by (simp add: on_protocol_file_print_done_def)
  have f: "events (trace (snd (on_protocol_file_print_done
           (on_protocol_file_status 1000 1000
              (on_protocol_file_status 200 1000 (on_protocol_file_print_started ''x'' 1000 s))))))
      = events (trace s) @ [on_job_started, on_job_progress, on_job_progress, on_job_done]"
    by (simp add: on_protocol_file_print_done_def Printjob_process_job_done_def
          on_protocol_file_status_def on_protocol_file_print_started_def
          process_job_progress_def process_job_started_def notify_listeners_def
          events_append emit_def del: report_stats.simps reset_job.simps)
  from a b c d e f show ?thesis by blast
qed

subsection \<open>Cancelling a recording job\<close>

lemma trace_terminal_local:
  "trace (reset_job (Local l) (report_stats (Local l) (notify_listeners e s))) =
     trace s @ [Notify e]
       @ (if truthy (elapsed s) \<and> read_lines s \<noteq> 0 then [LogInfo] else [])
       @ (if handle s = None then [] else [CloseHandle])"
  by (simp add: trace_reset_job_local notify_listeners_def
        del: report_stats.simps reset_job.simps)
     simp

lemma stream_cancelled:
  assumes "protocol s = Some p"
  shows "process_job_cancelled (Local LocalGcodeStreamjob) s =
           (Inr (), reset_job (Local LocalGcodeStreamjob)
                      (report_stats (Local LocalGcodeStreamjob)
                         (notify_listeners on_job_cancelled
                            (emit (DeleteFile p (remote s)) (emit (StopRecordingFile p) s)))))"
  using assms by (simp add: Printjob_process_job_cancelled_def del: report_stats.simps reset_job.simps)

definition stream_job :: job where
  "stream_job =
     snd (process (Local LocalGcodeStreamjob) 3 0
            (init (Local LocalGcodeStreamjob) gcode_file ''remote.gco'' 0))"

text \<open>
  Claim C9.  Cancelling a recording job that is bound to a transport first tells the
  transport to stop recording, then to delete the remote file, and only then runs the base
  handling: the \<open>on_job_cancelled\<close> notification, the statistics (a log record when
  \<open>elapsed\<close> and \<open>read_lines\<close> are non-zero) and the reset (which closes the handle if it
  is open and zeroes \<open>start_time\<close>, \<open>pos\<close> and \<open>read_lines\<close>); \<open>cancel\<close> then unregisters
  from the transport.
\<close>

theorem stream_cancel_order:
  assumes "protocol s = Some p"
  shows "fst (process_job_cancelled (Local LocalGcodeStreamjob) s) = Inr ()
    \<and> trace (snd (process_job_cancelled (Local LocalGcodeStreamjob) s)) =
        trace s @ [StopRecordingFile p, DeleteFile p (remote s), Notify on_job_cancelled]
          @ (if truthy (elapsed s) \<and> read_lines s \<noteq> 0 then [LogInfo] else [])
          @ (if handle s = None then [] else [CloseHandle])
    \<and> fst (cancel (Local LocalGcodeStreamjob) False s) = Inr ()
    \<and> trace (snd (cancel (Local LocalGcodeStreamjob) False s)) =
        trace s @ [StopRecordingFile p, DeleteFile p (remote s), Notify on_job_cancelled]
          @ (if truthy (elapsed s) \<and> read_lines s \<noteq> 0 then [LogInfo] else [])
          @ (if handle s = None then [] else [CloseHandle])
          @ [UnregisterListener p]
    \<and> start (snd (cancel (Local LocalGcodeStreamjob) False s)) = None
    \<and> handle (snd (cancel (Local LocalGcodeStreamjob) False s)) = None
    \<and> fpos (snd (cancel (Local LocalGcodeStreamjob) False s)) = 0
    \<and> read_lines (snd (cancel (Local LocalGcodeStreamjob) False s)) = 0"
proof -
  let ?K = "Local LocalGcodeStreamjob"
  let ?s0 = "s\<lparr>cancel_pos := Some (fpos s)\<rparr>"
  let ?t = "\<lambda>s. reset_job ?K (report_stats ?K (notify_listeners on_job_cancelled
              (emit (DeleteFile p (remote s)) (emit (StopRecordingFile p) s))))"
  have p0: "protocol ?s0 = Some p" using assms by simp
  have tr: "trace (?t s) =
      trace s @ [StopRecordingFile p, DeleteFile p (remote s), Notify on_job_cancelled]
        @ (if truthy (elapsed s) \<and> read_lines s \<noteq> 0 then [LogInfo] else [])
        @ (if handle s = None then [] else [CloseHandle])" for s
    by (simp add: trace_terminal_local del: report_stats.simps reset_job.simps)
  have pt: "protocol (?t ?s0) = Some p"
    using assms by (simp add: notify_listeners_def del: report_stats.simps reset_job.simps)
  have c: "cancel ?K False s = (Inr (), (unregister_listener p (?t ?s0))\<lparr>protocol := None\<rparr>)"
    using stream_cancelled [OF p0] pt
    by (simp add: Printjob_cancel_def del: report_stats.simps reset_job.simps
          process_job_cancelled.simps)
  have a: "trace (snd (cancel ?K False s)) =
      trace s @ [StopRecordingFile p, DeleteFile p (remote s), Notify on_job_cancelled]
        @ (if truthy (elapsed s) \<and> read_lines s \<noteq> 0 then [LogInfo] else [])
        @ (if handle s = None then [] else [CloseHandle])
        @ [UnregisterListener p]"
    unfolding c using tr [of ?s0]
    by (simp add: unregister_listener_def del: report_stats.simps reset_job.simps)
  have b: "start (snd (cancel ?K False s)) = None \<and> handle (snd (cancel ?K False s)) = None
      \<and> fpos (snd (cancel ?K False s)) = 0 \<and> read_lines (snd (cancel ?K False s)) = 0"
    unfolding c
    by (simp add: unregister_listener_def del: report_stats.simps reset_job.simps)
  have d: "fst (process_job_cancelled ?K s) = Inr ()
      \<and> trace (snd (process_job_cancelled ?K s)) =
        trace s @ [StopRecordingFile p, DeleteFile p (remote s), Notify on_job_cancelled]
          @ (if truthy (elapsed s) \<and> read_lines s \<noteq> 0 then [LogInfo] else [])
          @ (if handle s = None then [] else [CloseHandle])"
    unfolding stream_cancelled [OF assms] using tr [of s] by simp
  from a b c d show ?thesis by simp
qed

theorem stream_cancel_order_witness:
  "protocol stream_job = Some 3
   \<and> fst (cancel (Local LocalGcodeStreamjob) False stream_job) = Inr ()
   \<and> trace (snd (cancel (Local LocalGcodeStreamjob) False stream_job)) =
       [RegisterListener 3, OpenHandle, Notify on_job_started, RecordFile 3 ''remote.gco'',
        StopRecordingFile 3, DeleteFile 3 ''remote.gco'', Notify on_job_cancelled,
        CloseHandle, UnregisterListener 3]"
proof -
  have h: "protocol stream_job = Some 3" by (simp add: stream_job_def gcode_file_def job_defs)
  have "trace stream_job =
      [RegisterListener 3, OpenHandle, Notify on_job_started, RecordFile 3 ''remote.gco'']"
    "truthy (elapsed stream_job) = False" "handle stream_job \<noteq> None"
    "remote stream_job = ''remote.gco''"
    by (simp_all add: stream_job_def gcode_file_def job_defs)
  then show ?thesis using h stream_cancel_order [OF h] by simp
qed

subsection \<open>\<open>cancel\<close> without a transport\<close>

text \<open>The terminal notification \<open>cancel\<close> asks for.\<close>

definition terminal_event :: "bool \<Rightarrow> job_event" where
  "terminal_event err = (if err then on_job_failed else on_job_cancelled)"

lemma terminal_not_stream:
  "k \<noteq> Local LocalGcodeStreamjob \<Longrightarrow>
     process_job_failed k s = (Inr (), Printjob_process_job_failed k s)
     \<and> process_job_cancelled k s = (Inr (), Printjob_process_job_cancelled k s)"
  by (cases "(k, s)" rule: process_job_failed.cases) simp_all

lemma terminal_keeps [simp]:
  "protocol (Printjob_process_job_failed k s) = protocol s"
  "protocol (Printjob_process_job_cancelled k s) = protocol s"
  "events (trace (Printjob_process_job_failed k s)) = events (trace s) @ [on_job_failed]"
  "events (trace (Printjob_process_job_cancelled k s)) = events (trace s) @ [on_job_cancelled]"
  by (simp_all add: Printjob_process_job_failed_def Printjob_process_job_cancelled_def
        notify_listeners_def events_append del: report_stats.simps reset_job.simps)

lemma Printjob_cancel_unbound:
  assumes "protocol s = None" and "k \<noteq> Local LocalGcodeStreamjob"
  shows "fst (Printjob_cancel k err s) = Inl NoProtocol
    \<and> events (trace (snd (Printjob_cancel k err s))) = events (trace s) @ [terminal_event err]"
  using assms terminal_not_stream [OF assms(2), of s]
  by (cases err) (simp_all add: Printjob_cancel_def terminal_event_def)

lemma Printjob_cancel_unbound_state:
  assumes "protocol s = None" and "k \<noteq> Local LocalGcodeStreamjob"
  shows "snd (Printjob_cancel k err s) =
           reset_job k (report_stats k (notify_listeners (terminal_event err) s))"
  using assms terminal_not_stream [OF assms(2), of s]
  by (cases err)
     (simp_all add: Printjob_cancel_def terminal_event_def Printjob_process_job_failed_def
        Printjob_process_job_cancelled_def notify_listeners_def
        del: report_stats.simps reset_job.simps)

lemma cancel_unbound:
  assumes "protocol s = None" and "k \<noteq> Local LocalGcodeStreamjob"
  shows "fst (cancel k err s) = Inl NoProtocol
    \<and> events (trace (snd (cancel k err s))) = events (trace s) @ [terminal_event err]"
proof (cases k)
  case (Local l)
  have "protocol (s\<lparr>cancel_pos := Some (fpos s)\<rparr>) = None" using assms by simp
  from Printjob_cancel_unbound [OF this assms(2), of err] show ?thesis using Local by simp
qed (use Printjob_cancel_unbound [OF assms] in simp_all)

lemma events_terminal_bound:
  "protocol s = Some p \<Longrightarrow>
     events (trace (snd (process_job_failed k s))) = events (trace s) @ [on_job_failed]
     \<and> events (trace (snd (process_job_cancelled k s))) = events (trace s) @ [on_job_cancelled]"
  by (cases "(k, s)" rule: process_job_failed.cases)
     (simp_all add: events_append)

lemma events_Printjob_cancel_bound:
  assumes "protocol s = Some p"
  shows "events (trace (snd (Printjob_cancel k err s))) = events (trace s) @ [terminal_event err]"
proof (cases err)
  case True
  obtain s1 where f: "process_job_failed k s = (Inr (), s1)" and p1: "protocol s1 = Some p"
    using process_job_failed_bound [OF assms, of k]
    by (cases "process_job_failed k s") auto
  from events_terminal_bound [OF assms, of k] f
  have "events (trace s1) = events (trace s) @ [on_job_failed]" by simp
  then show ?thesis using True f p1
    by (simp add: Printjob_cancel_def unregister_listener_def terminal_event_def events_append)
next
  case False
  obtain s1 where f: "process_job_cancelled k s = (Inr (), s1)" and p1: "protocol s1 = Some p"
    using process_job_cancelled_bound [OF assms, of k]
    by (cases "process_job_cancelled k s") auto
  from events_terminal_bound [OF assms, of k] f
  have "events (trace s1) = events (trace s) @ [on_job_cancelled]" by simp
  then show ?thesis using False f p1
    by (simp add: Printjob_cancel_def unregister_listener_def terminal_event_def events_append)
qed

lemma events_cancel_bound:
  assumes "protocol s = Some p"
  shows "events (trace (snd (cancel k err s))) = events (trace s) @ [terminal_event err]"
proof (cases k)
  case (Local l)
  have "protocol (s\<lparr>cancel_pos := Some (fpos s)\<rparr>) = Some p" using assms by simp
  from events_Printjob_cancel_bound [OF this, of "Local l" err] show ?thesis using Local by simp
qed (use events_Printjob_cancel_bound [OF assms] in simp_all)

lemma stream_cancel_unbound:
  "protocol s = None \<Longrightarrow>
     cancel (Local LocalGcodeStreamjob) err s = (Inl NoProtocol, s\<lparr>cancel_pos := Some (fpos s)\<rparr>)"
  by (cases err) (simp_all add: Printjob_cancel_def)

definition unbound_stream_job :: job where
  "unbound_stream_job = init (Local LocalGcodeStreamjob) gcode_file ''remote.gco'' 0"

text \<open>
  Claim C10, as stated: on every job without a transport bound, \<open>cancel\<close> first emits the
  full terminal notification and then raises; a second \<open>cancel\<close> emits a duplicate.  A
  recording job is different: without a transport its \<open>cancel\<close> raises at once and emits
  nothing, whether it was never processed or was cancelled before (the trace then holds one
  \<open>on_job_cancelled\<close>, not two).
\<close>

theorem stream_cancel_unbound_emits_nothing:
  "protocol unbound_stream_job = None
   \<and> fst (cancel (Local LocalGcodeStreamjob) False unbound_stream_job) = Inl NoProtocol
   \<and> events (trace (snd (cancel (Local LocalGcodeStreamjob) False unbound_stream_job))) = []
   \<and> fst (cancel (Local LocalGcodeStreamjob) False stream_job) = Inr ()
   \<and> fst (cancel (Local LocalGcodeStreamjob) False
             (snd (cancel (Local LocalGcodeStreamjob) False stream_job))) = Inl NoProtocol
   \<and> events (trace (snd (cancel (Local LocalGcodeStreamjob) False
             (snd (cancel (Local LocalGcodeStreamjob) False stream_job))))) =
       [on_job_started, on_job_cancelled]"
  by (simp add: unbound_stream_job_def stream_job_def gcode_file_def job_defs)

text \<open>
  Claim C10, amended: on every job that is not a recording job and has no transport bound,
  \<open>cancel\<close> emits the terminal notification (failed or cancelled) with its statistics and
  reset (the state \<open>Printjob.cancel\<close> leaves is the one \<open>reset_job\<close> returns) and then
  raises when it unregisters; so after a successful \<open>cancel\<close> of such a job
  a second \<open>cancel\<close> emits a second terminal notification and raises.  A recording job
  without a transport raises before it emits anything; \<open>cancel\<close> has only recorded
  \<open>cancel_pos\<close> by then.
\<close>

theorem cancel_unbound_notifies_then_raises:
  assumes "protocol s = None" and "k \<noteq> Local LocalGcodeStreamjob" and "protocol t = Some p"
  shows "fst (cancel k err s) = Inl NoProtocol
    \<and> events (trace (snd (cancel k err s))) = events (trace s) @ [terminal_event err]
    \<and> snd (Printjob_cancel k err s) =
        reset_job k (report_stats k (notify_listeners (terminal_event err) s))
    \<and> fst (cancel k err t) = Inr ()
    \<and> fst (cancel k err2 (snd (cancel k err t))) = Inl NoProtocol
    \<and> events (trace (snd (cancel k err2 (snd (cancel k err t))))) =
        events (trace t) @ [terminal_event err, terminal_event err2]
    \<and> cancel (Local LocalGcodeStreamjob) err s =
        (Inl NoProtocol, s\<lparr>cancel_pos := Some (fpos s)\<rparr>)"
proof -
  have u: "protocol (snd (cancel k err t)) = None" and ok: "fst (cancel k err t) = Inr ()"
    using cancel_bound [OF assms(3), of k err] by simp_all
  show ?thesis
    using cancel_unbound [OF assms(1,2), of err] ok cancel_unbound [OF u assms(2), of err2]
      events_cancel_bound [OF assms(3), of k err] stream_cancel_unbound [OF assms(1), of err]
      Printjob_cancel_unbound_state [OF assms(1,2), of err]
    by simp
qed

theorem cancel_unbound_notifies_then_raises_witness:
  "protocol (init Printjob [] [] 10) = None
   \<and> Printjob \<noteq> Local LocalGcodeStreamjob
   \<and> protocol active_job = Some 1
   \<and> fst (cancel Printjob True (init Printjob [] [] 10)) = Inl NoProtocol
   \<and> events (trace (snd (cancel Printjob True (init Printjob [] [] 10)))) = [on_job_failed]
   \<and> fst (cancel Printjob False (snd (cancel Printjob True active_job))) = Inl NoProtocol
   \<and> events (trace (snd (cancel Printjob False (snd (cancel Printjob True active_job))))) =
       [on_job_failed, on_job_cancelled]"
proof -
  have h1: "protocol (init Printjob [] [] 10) = None" by (simp add: init_def)
  have h2: "Printjob \<noteq> Local LocalGcodeStreamjob" by simp
  have h3: "protocol active_job = Some 1" by (simp add: active_job_def job_defs)
  have e: "events (trace (init Printjob [] [] 10)) = []" "events (trace active_job) = []"
    by (simp_all add: active_job_def job_defs)
  have w: "fst (cancel Printjob True (init Printjob [] [] 10)) = Inl NoProtocol
    \<and> events (trace (snd (cancel Printjob True (init Printjob [] [] 10)))) =
        events (trace (init Printjob [] [] 10)) @ [terminal_event True]
    \<and> fst (cancel Printjob False (snd (cancel Printjob True active_job))) = Inl NoProtocol
    \<and> events (trace (snd (cancel Printjob False (snd (cancel Printjob True active_job))))) =
        events (trace active_job) @ [terminal_event True, terminal_event False]"
    using cancel_unbound_notifies_then_raises [OF h1 h2 h3, of True False] by blast
  show ?thesis
    using h1 h2 h3 e w by (simp add: terminal_event_def del: cancel.simps)
qed

subsection \<open>Running a local-file job twice\<close>

declare get_next_loop.simps [simp del]

lemma process_job_progress_fields [simp]:
  "handle (process_job_progress s) = handle s"
  "protocol (process_job_progress s) = protocol s"
  "content (process_job_progress s) = content s"
  "actual_lines (process_job_progress s) = actual_lines s"
  "read_lines (process_job_progress s) = read_lines s"
  by (simp_all add: process_job_progress_def notify_listeners_def)

lemma unread_progress [simp]: "unread (process_job_progress s) = unread s"
  by (simp add: unread_def)

lemma loop_unread:
  "get_next_loop k s = (Inr (Some x), s1) \<Longrightarrow> unread s1 < unread s"
proof (induction k s arbitrary: x s1 rule: get_next_loop.induct)
  case (1 k s)
  show ?case
  proof (cases "handle s")
    case None
    with "1.prems" show ?thesis
      by (simp add: get_next_loop.simps [of k s] split: prod.splits sum.splits)
  next
    case (Some h)
    let ?m = "s\<lparr>handle := Some (drop (length (readline h)) h),
                 fpos := fpos s + length (readline h),
                 actual_lines := actual_lines s + 1\<rparr>"
    show ?thesis
    proof (cases "h = []")
      case True
      obtain e s2 where d: "process_job_done (Local k) ?m = (e, s2)"
        by (cases "process_job_done (Local k) ?m") auto
      show ?thesis
      proof (cases e)
        case (Inl a)
        with "1.prems" Some True d show ?thesis
          by (simp add: get_next_loop.simps [of k s])
      next
        case (Inr u)
        with d have h2: "handle s2 = None" by (auto dest: handle_process_job_done)
        show ?thesis
        proof (cases "process_line k (readline h)")
          case None
          from "1.prems" Some True d Inr None
          have "get_next_loop k s2 = (Inr (Some x), s1)"
            by (simp add: get_next_loop.simps [of k s])
          with h2 show ?thesis
            by (simp add: get_next_loop.simps [of k s2] split: prod.splits sum.splits)
        next
          case (Some y)
          with "1.prems" \<open>handle s = Some h\<close> True d Inr h2 show ?thesis
            by (auto simp: get_next_loop.simps [of k s] unread_def)
        qed
      qed
    next
      case False
      then have r: "readline h \<noteq> []" by (simp add: readline_Nil_iff)
      have "0 < length (readline h)" "0 < length h" using r False by simp_all
      then have m: "unread ?m < unread s" using Some by (simp add: unread_def)
      show ?thesis
      proof (cases "process_line k (readline h)")
        case None
        from "1.prems" Some r None
        have g: "get_next_loop k ?m = (Inr (Some x), s1)"
          by (simp add: get_next_loop.simps [of k s])
        have "unread s1 < unread ?m"
          by (rule "1.IH" [OF Some _ _ None g]) (use r in simp_all)
        with m show ?thesis by simp
      next
        case (Some y)
        with "1.prems" \<open>handle s = Some h\<close> r m show ?thesis
          by (auto simp: get_next_loop.simps [of k s] unread_def)
      qed
    qed
  qed
qed

lemma get_next_unread:
  "LocalFilePrintjob_get_next k s = (Inr (Some x), s1) \<Longrightarrow> unread s1 < unread s"
  by (auto simp: LocalFilePrintjob_get_next_def dest: loop_unread
           split: option.splits prod.splits sum.splits)

text \<open>
  The caller's loop: \<open>get_next\<close> until it returns \<open>None\<close> or raises.  It returns the
  results, how it ended, and the final state.
\<close>

function drive :: "lkind \<Rightarrow> job \<Rightarrow> string list \<times> unit result" where
  "drive k s =
     (case get_next (Local k) s of
        (Inl e, s1) \<Rightarrow> ([], Inl e, s1)
      | (Inr None, s1) \<Rightarrow> ([], Inr (), s1)
      | (Inr (Some r), s1) \<Rightarrow> (case drive k s1 of (rs, res) \<Rightarrow> (r # rs, res)))"
  by pat_completeness auto
termination
proof (relation "measure (\<lambda>(k, s). unread s)", goal_cases)
  case 1
  show ?case by simp
next
  case (2 k s x s1 r y)
  then show ?case by (auto dest: get_next_unread [OF sym])
qed

text \<open>The number of lines \<open>readline\<close> finds in a text.\<close>

function count_lines :: "string \<Rightarrow> nat" where
  "count_lines h = (if h = [] then 0 else Suc (count_lines (drop (length (readline h)) h)))"
  by pat_completeness auto
termination
proof (relation "measure length", goal_cases)
  case 1
  show ?case by simp
next
  case (2 h)
  then have "0 < length (readline h)" "0 < length h" by (simp_all add: readline_Nil_iff)
  then show ?case by simp
qed

declare count_lines.simps [simp del]

text \<open>\<open>actual_lines\<close> plus the number of reads still to come while the handle is open.\<close>

definition pending :: "job \<Rightarrow> nat" where
  "pending s = actual_lines s + (case handle s of None \<Rightarrow> 0 | Some h \<Rightarrow> Suc (count_lines h))"

lemma process_line_Nil:
  "process_line k [] = (if k = LocalFilePrintjob then Some [] else None)"
  by (cases k) (simp_all add: strip_def strip_comment_def)

lemma process_line_plain: "process_line k l = None \<Longrightarrow> k \<noteq> LocalFilePrintjob"
  by (cases k) simp_all

lemma done_local:
  assumes "protocol s = Some p"
  shows "\<exists>s1. process_job_done (Local k) s = (Inr (), s1) \<and> handle s1 = None
           \<and> read_lines s1 = 0 \<and> actual_lines s1 = actual_lines s
           \<and> protocol s1 = Some p \<and> content s1 = content s"
  using assms
  by (cases k)
     (simp_all add: Printjob_process_job_done_def notify_listeners_def
        del: report_stats.simps reset_job.simps)

lemma loop_inv:
  "protocol s = Some p \<Longrightarrow> get_next_loop k s = (r, s1) \<Longrightarrow>
     protocol s1 = Some p \<and> content s1 = content s \<and> pending s1 = pending s
     \<and> (case r of
           Inl e \<Rightarrow> False
         | Inr None \<Rightarrow> handle s1 = None \<and> read_lines s1 = 0
                        \<and> (handle s = None \<or> k \<noteq> LocalFilePrintjob)
         | Inr (Some x) \<Rightarrow> handle s1 \<noteq> None \<or> (k = LocalFilePrintjob \<and> read_lines s1 = 1))"
proof (induction k s arbitrary: r s1 rule: get_next_loop.induct)
  case (1 k s)
  note p = \<open>protocol s = Some p\<close> and g = \<open>get_next_loop k s = (r, s1)\<close>
  show ?case
  proof (cases "handle s")
    case None
    from done_local [OF p, of k] obtain s2 where
      d: "process_job_done (Local k) s = (Inr (), s2)" and
      f: "handle s2 = None" "read_lines s2 = 0" "actual_lines s2 = actual_lines s"
         "protocol s2 = Some p" "content s2 = content s" by blast
    from g None d have "r = Inr None" "s1 = s2"
      by (simp_all add: get_next_loop.simps [of k s])
    with f None show ?thesis by (simp add: pending_def)
  next
    case (Some h)
    let ?m = "s\<lparr>handle := Some (drop (length (readline h)) h),
                 fpos := fpos s + length (readline h),
                 actual_lines := actual_lines s + 1\<rparr>"
    have pm: "protocol ?m = Some p" using p by simp
    show ?thesis
    proof (cases "h = []")
      case True
      from done_local [OF pm, of k] obtain s2 where
        d: "process_job_done (Local k) ?m = (Inr (), s2)" and
        f: "handle s2 = None" "read_lines s2 = 0" "actual_lines s2 = actual_lines ?m"
           "protocol s2 = Some p" "content s2 = content ?m" by blast
      have ps: "pending s = Suc (actual_lines s)"
        using Some True by (simp add: pending_def count_lines.simps [of "[]"])
      have u: "(r, s1) =
          (case process_line k [] of
             None \<Rightarrow> get_next_loop k s2
           | Some processed \<Rightarrow>
               (Inr (Some processed),
                process_job_progress (s2\<lparr>read_lines := read_lines s2 + 1\<rparr>)))"
        using g Some \<open>h = []\<close> d by (simp add: get_next_loop.simps [of k s])
      show ?thesis
      proof (cases "k = LocalFilePrintjob")
        case True
        from u True
        have "r = Inr (Some [])"
          "s1 = process_job_progress (s2\<lparr>read_lines := read_lines s2 + 1\<rparr>)"
          by (simp_all add: process_line_Nil)
        with f ps True show ?thesis by (simp add: pending_def)
      next
        case False
        from u False have g2: "get_next_loop k s2 = (r, s1)"
          by (simp add: process_line_Nil)
        from done_local [OF f(4), of k] obtain s3 where
          d3: "process_job_done (Local k) s2 = (Inr (), s3)" and
          f3: "handle s3 = None" "read_lines s3 = 0" "actual_lines s3 = actual_lines s2"
              "protocol s3 = Some p" "content s3 = content s2" by blast
        from g2 f(1) d3 have "r = Inr None" "s1 = s3"
          by (simp_all add: get_next_loop.simps [of k s2])
        with f f3 ps False show ?thesis by (simp add: pending_def)
      qed
    next
      case False
      then have r: "readline h \<noteq> []" by (simp add: readline_Nil_iff)
      have pe: "pending ?m = pending s"
        using Some False by (simp add: pending_def count_lines.simps [of h])
      show ?thesis
      proof (cases "process_line k (readline h)")
        case None
        from g Some r None have g2: "get_next_loop k ?m = (r, s1)"
          by (simp add: get_next_loop.simps [of k s])
        have "protocol s1 = Some p \<and> content s1 = content ?m \<and> pending s1 = pending ?m
          \<and> (case r of
                Inl e \<Rightarrow> False
              | Inr None \<Rightarrow> handle s1 = None \<and> read_lines s1 = 0
                             \<and> (handle ?m = None \<or> k \<noteq> LocalFilePrintjob)
              | Inr (Some x) \<Rightarrow>
                  handle s1 \<noteq> None \<or> (k = LocalFilePrintjob \<and> read_lines s1 = 1))"
          by (rule "1.IH" [OF Some _ _ None pm g2]) (use r in simp_all)
        with pe process_line_plain [OF None] show ?thesis
          by (auto split: sum.splits option.splits)
      next
        case (Some y)
        from g \<open>handle s = Some h\<close> r Some
        have "r = Inr (Some y)"
          "s1 = process_job_progress (?m\<lparr>read_lines := read_lines ?m + 1\<rparr>)"
          by (simp_all add: get_next_loop.simps [of k s])
        with pe p show ?thesis by (simp add: pending_def)
      qed
    qed
  qed
qed

lemma pending_closed: "handle s = None \<Longrightarrow> pending s = actual_lines s"
  by (simp add: pending_def)

lemma pending_open: "handle s = Some h \<Longrightarrow> pending s = actual_lines s + count_lines h + 1"
  by (simp add: pending_def)

lemma get_next_inv:
  assumes "protocol s = Some p" and "handle s \<noteq> None" and "get_next (Local k) s = (r, s1)"
  shows "protocol s1 = Some p \<and> content s1 = content s \<and> pending s1 = pending s
     \<and> (case r of
           Inl e \<Rightarrow> False
         | Inr None \<Rightarrow> handle s1 = None \<and> read_lines s1 = 0 \<and> k \<noteq> LocalFilePrintjob
         | Inr (Some x) \<Rightarrow> handle s1 \<noteq> None \<or> (k = LocalFilePrintjob \<and> read_lines s1 = 1))"
proof -
  obtain r2 s2 where g: "get_next_loop k s = (r2, s2)" by (cases "get_next_loop k s") auto
  note i = loop_inv [OF assms(1) g]
  then obtain v where v: "r2 = Inr v" by (cases r2) auto
  with g assms(2,3) have "r = r2" "s1 = s2"
    by (auto simp: LocalFilePrintjob_get_next_def)
  with i assms(2) show ?thesis by (auto split: sum.splits option.splits)
qed

declare drive.simps [simp del]

lemma drive_final:
  "protocol s = Some p \<Longrightarrow>
   handle s \<noteq> None \<or> (k = LocalFilePrintjob \<and> read_lines s = 1) \<Longrightarrow>
   drive k s = (rs, res, f) \<Longrightarrow>
     handle f = None \<and> read_lines f = (if k = LocalFilePrintjob then 1 else 0)
     \<and> actual_lines f = pending s \<and> content f = content s \<and> protocol f = Some p"
proof (induction k s arbitrary: rs res f rule: drive.induct)
  case (1 k s)
  note p = \<open>protocol s = Some p\<close> and d = \<open>drive k s = (rs, res, f)\<close>
  show ?case
  proof (cases "handle s")
    case None
    then have "get_next (Local k) s = (Inl HandleNotOpen, s)"
      by (simp add: LocalFilePrintjob_get_next_def)
    with d have "f = s" by (simp add: drive.simps [of k s])
    with None "1.prems"(2) p show ?thesis by (simp add: pending_closed)
  next
    case (Some h)
    obtain r s1 where g: "get_next (Local k) s = (r, s1)"
      by (cases "get_next (Local k) s") auto
    have hs: "handle s \<noteq> None" using Some by simp
    note i = get_next_inv [OF p hs g]
    show ?thesis
    proof (cases r)
      case (Inl e)
      with i show ?thesis by simp
    next
      case (Inr v)
      show ?thesis
      proof (cases v)
        case None
        with g Inr d have "f = s1" by (simp add: drive.simps [of k s])
        with i Inr None show ?thesis by (auto simp: pending_closed)
      next
        case (Some x)
        obtain rs2 res2 f2 where d2: "drive k s1 = (rs2, res2, f2)"
          by (cases "drive k s1") auto
        with g Inr Some d have ff: "f = f2" by (simp add: drive.simps [of k s])
        from i Inr Some have p1: "protocol s1 = Some p"
          and h1: "handle s1 \<noteq> None \<or> (k = LocalFilePrintjob \<and> read_lines s1 = 1)"
          and c1: "content s1 = content s" and e1: "pending s1 = pending s" by simp_all
        have "handle f2 = None \<and> read_lines f2 = (if k = LocalFilePrintjob then 1 else 0)
          \<and> actual_lines f2 = pending s1 \<and> content f2 = content s1 \<and> protocol f2 = Some p"
          by (rule "1.IH" [OF g [symmetric] Inr Some p1 h1 d2])
        with ff c1 e1 show ?thesis by simp
      qed
    qed
  qed
qed

text \<open>
  One run of a local-file job: \<open>process\<close> from position 0 on protocol \<open>p\<close>, then the
  caller's loop; the state at the end.
\<close>

definition run :: "lkind \<Rightarrow> nat \<Rightarrow> job \<Rightarrow> job" where
  "run k p s = snd (snd (drive k (snd (process (Local k) p 0 s))))"

lemma process_local_0:
  "protocol (snd (process (Local k) p 0 s)) = Some p
   \<and> handle (snd (process (Local k) p 0 s)) = Some (content s)
   \<and> actual_lines (snd (process (Local k) p 0 s)) = actual_lines s
   \<and> content (snd (process (Local k) p 0 s)) = content s"
  by (cases k)
     (simp_all add: LocalFilePrintjob_process_def Printjob_process_def register_listener_def
        process_job_started_def notify_listeners_def Let_def)

lemma run_counts:
  "read_lines (run k p s) = (if k = LocalFilePrintjob then 1 else 0)
   \<and> actual_lines (run k p s) = actual_lines s + count_lines (content s) + 1
   \<and> content (run k p s) = content s"
proof -
  let ?s = "snd (process (Local k) p 0 s)"
  obtain rs res f where d: "drive k ?s = (rs, res, f)" by (cases "drive k ?s") auto
  note q = process_local_0 [of k p s]
  from q have "protocol ?s = Some p"
    and "handle ?s \<noteq> None \<or> (k = LocalFilePrintjob \<and> read_lines ?s = 1)" by simp_all
  from drive_final [OF this d] q d show ?thesis by (simp add: run_def pending_open)
qed

text \<open>
  Claim C7, as stated: a second run from position 0 over the same content ends with the
  same \<open>read_lines\<close> and \<open>actual_lines\<close> as the first.  \<open>actual_lines\<close> differs: over the
  three-line file the first run ends with 4 and the second with 8.
\<close>

theorem second_run_actual_lines_differ:
  "actual_lines
     (run LocalGcodeFilePrintjob 0 (init (Local LocalGcodeFilePrintjob) gcode_file [] 0)) = 4
   \<and> actual_lines
       (run LocalGcodeFilePrintjob 0
          (run LocalGcodeFilePrintjob 0
             (init (Local LocalGcodeFilePrintjob) gcode_file [] 0))) = 8
   \<and> read_lines
       (run LocalGcodeFilePrintjob 0 (init (Local LocalGcodeFilePrintjob) gcode_file [] 0)) = 0
   \<and> read_lines
       (run LocalGcodeFilePrintjob 0
          (run LocalGcodeFilePrintjob 0
             (init (Local LocalGcodeFilePrintjob) gcode_file [] 0))) = 0"
  by (simp add: run_def drive.simps get_next_loop.simps gcode_file_def job_defs)

text \<open>
  Claim C7, amended: for a local-file job of any kind and any content, a second run ends
  with the same \<open>read_lines\<close> as the first, while \<open>actual_lines\<close> is never reset: each
  run adds the number of lines of the content plus one (the read that finds the end) to
  it.
\<close>

theorem second_run_counts:
  "read_lines (run k q (run k p s)) = read_lines (run k p s)
   \<and> actual_lines (run k p s) = actual_lines s + count_lines (content s) + 1
   \<and> actual_lines (run k q (run k p s)) = actual_lines (run k p s) + count_lines (content s) + 1"
  using run_counts [of k p s] run_counts [of k q "run k p s"] by simp

subsection \<open>When \<open>get_next\<close> returns \<open>None\<close>\<close>






end
